theory Spec2Isabelle
  imports Main
begin

section \<open>Fatal errors\<close>

text \<open>
  The C++ sources stop the process with \<^verbatim>\<open>assert\<close> when a contract is broken.  In the
  model every operation that can reach an assertion returns a sum: \<open>Inl\<close> carries the
  failed assertion (its message, or its condition when it has no message), \<open>Inr\<close> the
  ordinary result.  The model describes builds in which assertions are enabled.
\<close>

datatype error = Assertion string

text \<open>Running a fallible step on the result of a fallible step: the first failure stops.\<close>

fun and_then :: "error + 'a \<Rightarrow> ('a \<Rightarrow> error + 'b) \<Rightarrow> error + 'b" where
  "and_then (Inl e) f = Inl e"
| "and_then (Inr x) f = f x"

section \<open>Solver utilities (lib/Solver/SolverUtil.cpp)\<close>

text \<open>
  Modelled from the spec: the enumeration \<^verbatim>\<open>PartialValidity\<close> (alias \<^verbatim>\<open>PValidity\<close>) is declared
  in klee/Solver/SolverUtil.h, which is not among the sources.  The spec calls it a six-valued
  extension of validity; its six enumerators are the six cases of the exhaustive switch in
  \<^verbatim>\<open>pv_to_str\<close>.  \<^verbatim>\<open>PValidity::None\<close> is written \<open>None_pv\<close>.
\<close>

datatype PartialValidity =
  MustBeTrue | MustBeFalse | MayBeTrue | MayBeFalse | TrueOrFalse | None_pv

text \<open>
  Modelled from the spec: the enumeration \<^verbatim>\<open>Validity\<close> (total validity) is declared in a header
  that is not among the sources; its three enumerators are the three cases of the exhaustive
  switch in \<^verbatim>\<open>toPartial\<close>.  They are written with the suffix \<open>_v\<close>.
\<close>

datatype Validity = True_v | False_v | Unknown_v

text \<open>
  Modelled from the spec: the class hierarchy under \<^verbatim>\<open>SolverResponse\<close> is declared in a header
  that is not among the sources.  \<^verbatim>\<open>pValidityEvaluation\<close> only asks, with \<^verbatim>\<open>isa\<close>, which of the
  three kinds a response is; a response is modelled by its kind.
\<close>

datatype SolverResponse = ValidResponse | InvalidResponse | UnknownResponse

fun pv_to_str :: "PartialValidity \<Rightarrow> string" where
  "pv_to_str MustBeTrue = ''MustBeTrue''"
| "pv_to_str MustBeFalse = ''MustBeFalse''"
| "pv_to_str MayBeTrue = ''MayBeTrue''"
| "pv_to_str MayBeFalse = ''MayBeFalse''"
| "pv_to_str TrueOrFalse = ''TrueOrFalse''"
| "pv_to_str None_pv = ''None''"

text \<open>\<^verbatim>\<open>fromPartial\<close>: three cases return, the \<^verbatim>\<open>default\<close> label asserts.\<close>

fun fromPartial :: "PartialValidity \<Rightarrow> error + Validity" where
  "fromPartial MustBeTrue = Inr True_v"
| "fromPartial MustBeFalse = Inr False_v"
| "fromPartial TrueOrFalse = Inr Unknown_v"
| "fromPartial _ = Inl (Assertion ''PV not convertible to Validity'')"

fun toPartial :: "Validity \<Rightarrow> PartialValidity" where
  "toPartial True_v = MustBeTrue"
| "toPartial False_v = MustBeFalse"
| "toPartial Unknown_v = TrueOrFalse"

text \<open>
  \<^verbatim>\<open>negatePartialValidity\<close>: the switch names five enumerators; the \<^verbatim>\<open>default\<close> label, written
  first, asserts \<^verbatim>\<open>0\<close>, and is where every value without a case of its own arrives.
\<close>

fun negatePartialValidity :: "PartialValidity \<Rightarrow> error + PartialValidity" where
  "negatePartialValidity MustBeTrue = Inr MustBeFalse"
| "negatePartialValidity MustBeFalse = Inr MustBeTrue"
| "negatePartialValidity MayBeTrue = Inr MayBeFalse"
| "negatePartialValidity MayBeFalse = Inr MayBeTrue"
| "negatePartialValidity TrueOrFalse = Inr TrueOrFalse"
| "negatePartialValidity _ = Inl (Assertion ''invalid partial validity'')"

text \<open>
  \<^verbatim>\<open>pValidityEvaluation\<close>: the chain of \<^verbatim>\<open>if\<close>/\<^verbatim>\<open>else if\<close> in the order of the source; the
  final \<^verbatim>\<open>else\<close> asserts.
\<close>

definition pValidityEvaluation :: "SolverResponse \<Rightarrow> SolverResponse \<Rightarrow> error + PartialValidity" where
  "pValidityEvaluation queryRes negativeQueryRes =
     (if queryRes = ValidResponse \<and> negativeQueryRes = InvalidResponse then Inr MustBeTrue
      else if queryRes = InvalidResponse \<and> negativeQueryRes = ValidResponse then Inr MustBeFalse
      else if queryRes = InvalidResponse \<and> negativeQueryRes = InvalidResponse then Inr TrueOrFalse
      else if queryRes = InvalidResponse \<and> negativeQueryRes = UnknownResponse then Inr MayBeFalse
      else if queryRes = UnknownResponse \<and> negativeQueryRes = InvalidResponse then Inr MayBeTrue
      else if queryRes = UnknownResponse \<and> negativeQueryRes = UnknownResponse then Inr None_pv
      else Inl (Assertion ''unreachable''))"

section \<open>Searchers (lib/Core/Searcher.h)\<close>

text \<open>
  A searcher holds non-owning pointers to execution states.  A pointer is modelled by the
  identity of the state it points to (the id that \<^verbatim>\<open>getID\<close> returns in the unit tests);
  a pointer that may be \<^verbatim>\<open>nullptr\<close> is an \<open>option\<close>.
\<close>

type_synonym ExecutionState = nat

text \<open>
  The abstract class \<^verbatim>\<open>Searcher\<close> declares three pure virtual member functions.  An object
  of a derived class is a value of some type \<open>'b\<close> (its fields) together with its three
  member functions; each takes the object and returns the object as it has become, or the
  assertion that stopped it.
\<close>

record 'b Searcher =
  selectState :: "'b \<Rightarrow> error + (ExecutionState \<times> 'b)"
  update :: "'b \<Rightarrow> ExecutionState option \<Rightarrow> ExecutionState list \<Rightarrow> ExecutionState list \<Rightarrow> error + 'b"
  empty :: "'b \<Rightarrow> bool"

subsection \<open>DFSSearcher\<close>

text \<open>
  The only field of \<^verbatim>\<open>DFSSearcher\<close> is the vector \<^verbatim>\<open>states\<close>; \<^verbatim>\<open>empty\<close> is defined in
  the header.
\<close>

definition DFSSearcher_empty :: "ExecutionState list \<Rightarrow> bool" where
  "DFSSearcher_empty states = (states = [])"

text \<open>
  Modelled from the spec: \<^verbatim>\<open>DFSSearcher::selectState\<close> is declared in the header and defined in
  lib/Core/Searcher.cpp, which is not among the sources.  The spec (4.2): selectState returns
  the last element of the sequence; (7) selecting from an empty searcher is fatal.
\<close>

definition DFSSearcher_selectState :: "ExecutionState list \<Rightarrow> error + (ExecutionState \<times> ExecutionState list)" where
  "DFSSearcher_selectState states =
     (if states = [] then Inl (Assertion ''empty selection'') else Inr (last states, states))"

text \<open>
  Modelled from the spec: \<^verbatim>\<open>DFSSearcher::update\<close> is declared in the header and defined in
  lib/Core/Searcher.cpp, which is not among the sources.  The spec (4.2): update appends
  \<^verbatim>\<open>added\<close> in the order given and removes every element of \<^verbatim>\<open>removed\<close>, with a membership
  check; survivors keep their positions; (7) a removed handle that is not scheduled is fatal.
\<close>

fun remove_states :: "ExecutionState list \<Rightarrow> ExecutionState list \<Rightarrow> error + ExecutionState list" where
  "remove_states states [] = Inr states"
| "remove_states states (r # rs) =
     (if r \<in> set states then remove_states (remove1 r states) rs
      else Inl (Assertion ''unknown state in removed''))"

definition DFSSearcher_update ::
  "ExecutionState list \<Rightarrow> ExecutionState option \<Rightarrow> ExecutionState list \<Rightarrow> ExecutionState list
     \<Rightarrow> error + ExecutionState list" where
  "DFSSearcher_update states current addedStates removedStates =
     remove_states (states @ addedStates) removedStates"

definition DFSSearcher :: "ExecutionState list Searcher" where
  "DFSSearcher =
     \<lparr>selectState = DFSSearcher_selectState, update = DFSSearcher_update, empty = DFSSearcher_empty\<rparr>"

subsection \<open>MergingSearcher\<close>

text \<open>
  The fields of \<^verbatim>\<open>MergingSearcher\<close>.  The base searcher is owned through a pointer to the
  abstract class: its fields are the value \<open>baseSearcher\<close>, and its member functions are a
  parameter \<open>base\<close> of every operation below.  Merge handlers are identified by number.
  The member functions defined in the header are modelled; \<^verbatim>\<open>MergingSearcher::selectState\<close>
  is only declared there.
\<close>

record 'b MergingSearcher =
  baseSearcher :: 'b
  pausedStates :: "ExecutionState list"
  inCloseMerge :: "ExecutionState set"
  mergeGroups :: "nat list"

text \<open>
  The searcher with base object \<open>b\<close> and paused states \<open>ps\<close>, outside any merge: the other
  two fields are empty, as the constructor leaves them.
\<close>

abbreviation merging_searcher :: "'b \<Rightarrow> ExecutionState list \<Rightarrow> 'b MergingSearcher" where
  "merging_searcher b ps \<equiv>
     \<lparr>baseSearcher = b, pausedStates = ps, inCloseMerge = {}, mergeGroups = []\<rparr>"

text \<open>
  \<^verbatim>\<open>pauseState\<close>: assert that the state is not in \<^verbatim>\<open>pausedStates\<close>, push it, and tell the
  base \<^verbatim>\<open>update(nullptr, {}, {&state})\<close>.
\<close>

definition pauseState :: "'b Searcher \<Rightarrow> 'b MergingSearcher \<Rightarrow> ExecutionState \<Rightarrow> error + 'b MergingSearcher" where
  "pauseState base m state =
     (if state \<in> set (pausedStates m)
      then Inl (Assertion ''find(pausedStates, &state) == pausedStates.end()'')
      else and_then (update base (baseSearcher m) None [] [state])
             (\<lambda>b. Inr (m\<lparr>baseSearcher := b, pausedStates := pausedStates m @ [state]\<rparr>)))"

text \<open>
  \<^verbatim>\<open>continueState\<close>: find the state in \<^verbatim>\<open>pausedStates\<close>, assert that it was found, erase
  that (first) occurrence, and tell the base \<^verbatim>\<open>update(nullptr, {&state}, {})\<close>.
\<close>

definition continueState :: "'b Searcher \<Rightarrow> 'b MergingSearcher \<Rightarrow> ExecutionState \<Rightarrow> error + 'b MergingSearcher" where
  "continueState base m state =
     (if state \<notin> set (pausedStates m)
      then Inl (Assertion ''it != pausedStates.end()'')
      else and_then (update base (baseSearcher m) None [state] [])
             (\<lambda>b. Inr (m\<lparr>baseSearcher := b, pausedStates := remove1 state (pausedStates m)\<rparr>)))"

text \<open>
  \<^verbatim>\<open>MergingSearcher::update\<close>: \<^verbatim>\<open>std::find\<close> looks for the pointer \<^verbatim>\<open>current\<close> among the paused
  pointers (none of which is null).  Only when it is not found is the base called, with the
  three arguments as they came; otherwise the function returns having done nothing.
\<close>

definition MergingSearcher_update ::
  "'b Searcher \<Rightarrow> 'b MergingSearcher \<Rightarrow> ExecutionState option \<Rightarrow> ExecutionState list \<Rightarrow> ExecutionState list
     \<Rightarrow> error + 'b MergingSearcher" where
  "MergingSearcher_update base m current addedStates removedStates =
     (if current \<notin> set (map Some (pausedStates m))
      then and_then (update base (baseSearcher m) current addedStates removedStates)
             (\<lambda>b. Inr (m\<lparr>baseSearcher := b\<rparr>))
      else Inr m)"

definition MergingSearcher_empty :: "'b Searcher \<Rightarrow> 'b MergingSearcher \<Rightarrow> bool" where
  "MergingSearcher_empty base m = empty base (baseSearcher m)"

subsection \<open>The selecting wrapper and the loops of UniqueStatesTest.DFSn\<close>

text \<open>
  Modelled from the spec: the class \<^verbatim>\<open>SelectNSearcher\<close>, through which the unit test selects,
  is declared and defined nowhere in the sources.  The spec (8) calls it an N-select wrapper
  that delegates to its base and whose consecutive selections are pairwise distinct; a selected
  state \<open>x\<close> leaves a searcher by \<^verbatim>\<open>update(x, {}, {x})\<close> (4.1, 8).  So \<^verbatim>\<open>selectState\<close> of the
  wrapper asks the base for a state and removes that state from the base before it returns
  it; \<^verbatim>\<open>update\<close> and \<^verbatim>\<open>empty\<close> delegate.  The count given to the constructor has no
  described effect and is left out.
\<close>

definition SelectNSearcher_selectState :: "'b Searcher \<Rightarrow> 'b \<Rightarrow> error + (ExecutionState \<times> 'b)" where
  "SelectNSearcher_selectState base b =
     (case selectState base b of
        Inl err \<Rightarrow> Inl err
      | Inr (x, b1) \<Rightarrow>
          (case update base b1 (Some x) [] [x] of
             Inl err \<Rightarrow> Inl err
           | Inr b2 \<Rightarrow> Inr (x, b2)))"

definition SelectNSearcher :: "'b Searcher \<Rightarrow> 'b Searcher" where
  "SelectNSearcher base =
     \<lparr>selectState = SelectNSearcher_selectState base, update = update base, empty = empty base\<rparr>"

text \<open>
  The first loop of the test (lines 31 to 33): each state is handed to the searcher in a call
  \<^verbatim>\<open>update(nullptr, {&es[i]}, {})\<close> of its own.
\<close>

fun add_one_at_a_time :: "'b Searcher \<Rightarrow> 'b \<Rightarrow> ExecutionState list \<Rightarrow> error + 'b" where
  "add_one_at_a_time S b [] = Inr b"
| "add_one_at_a_time S b (e # es) =
     (case update S b None [e] [] of
        Inl err \<Rightarrow> Inl err
      | Inr b' \<Rightarrow> add_one_at_a_time S b' es)"

text \<open>
  The second loop of the test (lines 34 to 36): \<open>n\<close> consecutive calls of \<^verbatim>\<open>selectState\<close>, with
  no other call in between; the result lists the states in the order selected.
\<close>

fun select_n :: "'b Searcher \<Rightarrow> nat \<Rightarrow> 'b \<Rightarrow> error + (ExecutionState list \<times> 'b)" where
  "select_n S 0 b = Inr ([], b)"
| "select_n S (Suc n) b =
     (case selectState S b of
        Inl err \<Rightarrow> Inl err
      | Inr (x, b1) \<Rightarrow>
          (case select_n S n b1 of
             Inl err \<Rightarrow> Inl err
           | Inr (xs, b2) \<Rightarrow> Inr (x # xs, b2)))"

subsection \<open>The update contract\<close>

text \<open>
  The contract of the spec (3, 4.1, 8) for a searcher whose scheduled states are the set
  \<open>P\<close>: \<^verbatim>\<open>added\<close> and \<^verbatim>\<open>removed\<close> are finite sets (no handle twice) and disjoint, a state is
  born once (no added state is already scheduled), and only scheduled states are removed.
\<close>

definition legal_update :: "ExecutionState set \<Rightarrow> ExecutionState list \<Rightarrow> ExecutionState list \<Rightarrow> bool" where
  "legal_update P A R \<longleftrightarrow>
     distinct A \<and> distinct R \<and> set A \<inter> set R = {} \<and> set A \<inter> P = {} \<and> set R \<subseteq> P"

text \<open>
  A searcher with member functions \<open>S\<close> obeys the contract, for the objects that satisfy
  \<open>ok\<close> and with \<open>population\<close> reading the scheduled states off an object, when every legal
  update returns, keeps \<open>ok\<close> and leaves the population \<open>(P \<union> A) - R\<close>, and when \<^verbatim>\<open>empty\<close>
  says whether the population is empty.
\<close>

definition obeys_contract :: "'b Searcher \<Rightarrow> ('b \<Rightarrow> bool) \<Rightarrow> ('b \<Rightarrow> ExecutionState set) \<Rightarrow> bool" where
  "obeys_contract S ok population \<longleftrightarrow>
     (\<forall>b c A R. ok b \<and> legal_update (population b) A R \<longrightarrow>
        (\<exists>b'. update S b c A R = Inr b' \<and> ok b' \<and>
              population b' = (population b \<union> set A) - set R)) \<and>
     (\<forall>b. ok b \<longrightarrow> (empty S b \<longleftrightarrow> population b = {}))"


section \<open>Properties of the solver utilities\<close>

text \<open>
  C5.  \<^verbatim>\<open>fromPartial\<close> maps \<^verbatim>\<open>MustBeTrue\<close> to \<^verbatim>\<open>Validity::True\<close>, \<^verbatim>\<open>MustBeFalse\<close> to
  \<^verbatim>\<open>Validity::False\<close> and \<^verbatim>\<open>TrueOrFalse\<close> to \<^verbatim>\<open>Validity::Unknown\<close>; on each of the other
  three values (\<^verbatim>\<open>MayBeTrue\<close>, \<^verbatim>\<open>MayBeFalse\<close>, \<^verbatim>\<open>None\<close>) it reaches the assertion and returns
  no value.
\<close>

theorem fromPartial_cases:
  "fromPartial MustBeTrue = Inr True_v \<and>
   fromPartial MustBeFalse = Inr False_v \<and>
   fromPartial TrueOrFalse = Inr Unknown_v \<and>
   fromPartial MayBeTrue = Inl (Assertion ''PV not convertible to Validity'') \<and>
   fromPartial MayBeFalse = Inl (Assertion ''PV not convertible to Validity'') \<and>
   fromPartial None_pv = Inl (Assertion ''PV not convertible to Validity'')"
  by simp

text \<open>
  C9.  For every total validity \<open>v\<close>, converting to partial validity and back returns \<open>v\<close>;
  the round trip never reaches the assertion of \<^verbatim>\<open>fromPartial\<close>.
\<close>

theorem fromPartial_toPartial:
  "fromPartial (toPartial v) = Inr v"
  by (cases v) simp_all

text \<open>
  C2.  \<^verbatim>\<open>pValidityEvaluation\<close> on the pairs (query response, response to the negated query):
  six pairs return a partial validity, and the pairs (Valid, Valid) and (Unknown, Valid)
  reach the assertion \<^verbatim>\<open>unreachable\<close>.
\<close>

theorem pValidityEvaluation_table:
  "pValidityEvaluation ValidResponse InvalidResponse = Inr MustBeTrue \<and>
   pValidityEvaluation InvalidResponse ValidResponse = Inr MustBeFalse \<and>
   pValidityEvaluation InvalidResponse InvalidResponse = Inr TrueOrFalse \<and>
   pValidityEvaluation InvalidResponse UnknownResponse = Inr MayBeFalse \<and>
   pValidityEvaluation UnknownResponse InvalidResponse = Inr MayBeTrue \<and>
   pValidityEvaluation UnknownResponse UnknownResponse = Inr None_pv \<and>
   pValidityEvaluation ValidResponse ValidResponse = Inl (Assertion ''unreachable'') \<and>
   pValidityEvaluation UnknownResponse ValidResponse = Inl (Assertion ''unreachable'')"
  by (simp add: pValidityEvaluation_def)

text \<open>
  The ninth pair, (Valid, Unknown), is not named by any branch either and ends in the
  same assertion.
\<close>

lemma pValidityEvaluation_Valid_Unknown:
  "pValidityEvaluation ValidResponse UnknownResponse = Inl (Assertion ''unreachable'')"
  by (simp add: pValidityEvaluation_def)

text \<open>
  C10 (as stated, refuted).  The claim says that \<^verbatim>\<open>negatePartialValidity\<close> never reaches its
  \<^verbatim>\<open>default\<close> branch on any of the six enumerators.  \<^verbatim>\<open>None\<close> has no case in the switch: it
  reaches the assertion, so no value is returned for it.
\<close>

theorem negatePartialValidity_None_fatal:
  "negatePartialValidity None_pv = Inl (Assertion ''invalid partial validity'') \<and>
   and_then (negatePartialValidity None_pv) negatePartialValidity \<noteq> Inr None_pv"
  by simp

text \<open>
  C10 (amended).  \<^verbatim>\<open>negatePartialValidity\<close> swaps \<^verbatim>\<open>MustBeTrue\<close> with \<^verbatim>\<open>MustBeFalse\<close> and
  \<^verbatim>\<open>MayBeTrue\<close> with \<^verbatim>\<open>MayBeFalse\<close> and maps \<^verbatim>\<open>TrueOrFalse\<close> to itself; on each of these five
  values it returns without reaching the \<^verbatim>\<open>default\<close> branch, and applying it twice returns
  the original value.  On \<^verbatim>\<open>None\<close> it reaches the \<^verbatim>\<open>default\<close> branch.
\<close>

theorem negatePartialValidity_involution:
  "negatePartialValidity MustBeTrue = Inr MustBeFalse \<and>
   negatePartialValidity MustBeFalse = Inr MustBeTrue \<and>
   negatePartialValidity MayBeTrue = Inr MayBeFalse \<and>
   negatePartialValidity MayBeFalse = Inr MayBeTrue \<and>
   negatePartialValidity TrueOrFalse = Inr TrueOrFalse \<and>
   negatePartialValidity None_pv = Inl (Assertion ''invalid partial validity'') \<and>
   (pv \<noteq> None_pv \<longrightarrow>
      (\<exists>r. negatePartialValidity pv = Inr r \<and> r \<noteq> None_pv) \<and>
      and_then (negatePartialValidity pv) negatePartialValidity = Inr pv)"
  by (cases pv) simp_all

theorem negatePartialValidity_involution_witness:
  "MayBeTrue \<noteq> None_pv \<and>
   negatePartialValidity MayBeTrue = Inr MayBeFalse \<and>
   and_then (negatePartialValidity MayBeTrue) negatePartialValidity = Inr MayBeTrue"
  using negatePartialValidity_involution [of MayBeTrue] by simp

section \<open>Properties of the searchers\<close>

subsection \<open>The depth-first searcher obeys the update contract\<close>

lemma remove_states_law:
  "distinct xs \<Longrightarrow> distinct R \<Longrightarrow> set R \<subseteq> set xs \<Longrightarrow>
   \<exists>ys. remove_states xs R = Inr ys \<and> set ys = set xs - set R \<and> distinct ys"
proof (induction R arbitrary: xs)
  case Nil
  then show ?case by simp
next
  case (Cons r R)
  from Cons.prems have r: "r \<in> set xs" and "r \<notin> set R" and dR: "distinct R" by auto
  have d1: "distinct (remove1 r xs)" using Cons.prems(1) by simp
  have s1: "set (remove1 r xs) = set xs - {r}" using Cons.prems(1) by simp
  have sub: "set R \<subseteq> set (remove1 r xs)" using Cons.prems(3) \<open>r \<notin> set R\<close> s1 by auto
  from Cons.IH [OF d1 dR sub] obtain ys where
    "remove_states (remove1 r xs) R = Inr ys" "set ys = set (remove1 r xs) - set R" "distinct ys"
    by blast
  then show ?case using r s1 by auto
qed

lemma DFSSearcher_update_law:
  assumes "distinct states" and "legal_update (set states) A R"
  shows "\<exists>states'. DFSSearcher_update states c A R = Inr states' \<and> distinct states' \<and>
           set states' = (set states \<union> set A) - set R"
proof -
  from assms have d: "distinct (states @ A)" and dR: "distinct R"
    and sub: "set R \<subseteq> set (states @ A)"
    by (auto simp: legal_update_def)
  from remove_states_law [OF d dR sub] show ?thesis
    by (auto simp: DFSSearcher_update_def)
qed

lemma DFSSearcher_obeys_contract: "obeys_contract DFSSearcher distinct set"
  unfolding obeys_contract_def
proof (intro conjI allI impI)
  fix b c A R
  assume "distinct b \<and> legal_update (set b) A R"
  then show "\<exists>b'. update DFSSearcher b c A R = Inr b' \<and> distinct b' \<and>
                 set b' = (set b \<union> set A) - set R"
    using DFSSearcher_update_law [of b A R c] by (simp add: DFSSearcher_def)
next
  fix b :: "ExecutionState list"
  show "empty DFSSearcher b \<longleftrightarrow> set b = {}"
    by (simp add: DFSSearcher_def DFSSearcher_empty_def)
qed

text \<open>What the contract gives for one legal update of an object that satisfies \<open>ok\<close>.\<close>

lemma obeys_contract_update:
  assumes "obeys_contract S ok population" and "ok b" and "legal_update (population b) A R"
  shows "\<exists>b'. update S b c A R = Inr b' \<and> ok b' \<and>
           population b' = (population b \<union> set A) - set R"
  using assms unfolding obeys_contract_def by blast

subsection \<open>MergingSearcher: update\<close>

text \<open>
  C1 (as stated, refuted).  The claim says that when \<^verbatim>\<open>current\<close> is paused the base receives
  \<^verbatim>\<open>update(none, added, removed)\<close>.  Over a depth-first base holding states 1 and 2, with
  state 3 paused, \<^verbatim>\<open>update(3, {4, 5}, {1})\<close> leaves the searcher as it was: the base still holds
  1 and 2, whereas the rewritten call would have left it holding 2, 4 and 5.
\<close>

theorem MergingSearcher_update_paused_current_counterexample:
  "MergingSearcher_update DFSSearcher
      (merging_searcher [1::ExecutionState, 2] [3]) (Some 3) [4, 5] [1]
     = Inr (merging_searcher [1::ExecutionState, 2] [3]) \<and>
   update DFSSearcher [1, 2] None [4, 5] [1] = Inr [2, 4, 5] \<and>
   MergingSearcher_update DFSSearcher
      (merging_searcher [1::ExecutionState, 2] [3]) (Some 3) [4, 5] [1]
     \<noteq> and_then (update DFSSearcher [1, 2] None [4, 5] [1])
          (\<lambda>b. Inr (merging_searcher b [3]))"
  by (simp add: MergingSearcher_update_def DFSSearcher_def DFSSearcher_update_def)

text \<open>
  C1 (amended).  For every call \<^verbatim>\<open>update(current, added, removed)\<close> on a MergingSearcher:
  when \<^verbatim>\<open>current\<close> is a paused state the base searcher receives no call at all and the
  MergingSearcher is left unchanged, so the added and removed sets are not applied to the
  base; when \<^verbatim>\<open>current\<close> is not paused (a state that is not paused, or none) the call is
  forwarded to the base unchanged, and the MergingSearcher changes in its base only.
\<close>

theorem MergingSearcher_update_forwarding:
  "(current \<in> Some ` set (pausedStates m) \<longrightarrow>
      MergingSearcher_update base m current A R = Inr m) \<and>
   (current \<notin> Some ` set (pausedStates m) \<longrightarrow>
      MergingSearcher_update base m current A R =
        and_then (update base (baseSearcher m) current A R) (\<lambda>b. Inr (m\<lparr>baseSearcher := b\<rparr>)))"
  by (simp add: MergingSearcher_update_def)

text \<open>
  Both cases at a depth-first base holding 1 and 2 with state 3 paused: with \<^verbatim>\<open>current\<close> the
  paused state 3 nothing changes; with \<^verbatim>\<open>current\<close> the scheduled state 2 the base adds 4 and
  removes 1.
\<close>

theorem MergingSearcher_update_forwarding_witness:
  "Some (3::nat) \<in> Some ` set (pausedStates (merging_searcher [1::ExecutionState, 2] [3])) \<and>
   MergingSearcher_update DFSSearcher (merging_searcher [1::ExecutionState, 2] [3]) (Some 3) [4] [1]
     = Inr (merging_searcher [1::ExecutionState, 2] [3]) \<and>
   Some (2::nat) \<notin> Some ` set (pausedStates (merging_searcher [1::ExecutionState, 2] [3])) \<and>
   MergingSearcher_update DFSSearcher (merging_searcher [1::ExecutionState, 2] [3]) (Some 2) [4] [1]
     = Inr (merging_searcher [2::ExecutionState, 4] [3])"
  using
    MergingSearcher_update_forwarding [of "Some 3" "merging_searcher [1, 2] [3]" DFSSearcher "[4]" "[1]"]
    MergingSearcher_update_forwarding [of "Some 2" "merging_searcher [1, 2] [3]" DFSSearcher "[4]" "[1]"]
  by (simp add: DFSSearcher_def DFSSearcher_update_def)

subsection \<open>MergingSearcher: pausing and continuing\<close>

text \<open>
  What \<^verbatim>\<open>pauseState\<close> followed by \<^verbatim>\<open>continueState\<close> does for a state that is not paused,
  whatever the base is, as long as the two calls it receives return: the base is called with
  \<^verbatim>\<open>update(nullptr, {}, {&state})\<close> and then with \<^verbatim>\<open>update(nullptr, {&state}, {})\<close>, and the
  vector of paused states ends as it began.
\<close>

lemma pause_continue_base_calls:
  assumes "state \<notin> set (pausedStates m)"
    and "update base (baseSearcher m) None [] [state] = Inr b1"
    and "update base b1 None [state] [] = Inr b2"
  shows "pauseState base m state =
           Inr (m\<lparr>baseSearcher := b1, pausedStates := pausedStates m @ [state]\<rparr>)"
    and "continueState base (m\<lparr>baseSearcher := b1, pausedStates := pausedStates m @ [state]\<rparr>) state =
           Inr (m\<lparr>baseSearcher := b2\<rparr>)"
  using assms by (simp_all add: pauseState_def continueState_def remove1_append)

text \<open>
  C3 (as stated, refuted).  The claim speaks of every state that is not paused.  State 2 is
  not paused and is not scheduled by the base either (the depth-first base holds state 1
  only): \<^verbatim>\<open>pauseState\<close> asks the base to remove a state it does not hold, which is fatal, so
  the pair of calls is not the identity.
\<close>

theorem pauseState_unscheduled_counterexample:
  "(2::nat) \<notin> set (pausedStates (merging_searcher [1::ExecutionState] [])) \<and>
   pauseState DFSSearcher (merging_searcher [1::ExecutionState] []) 2
     = Inl (Assertion ''unknown state in removed'')"
  by (simp add: pauseState_def DFSSearcher_def DFSSearcher_update_def)

text \<open>
  C3 (amended).  For every MergingSearcher whose base searcher obeys the update contract, and
  every state that is not paused and is scheduled by the base: \<^verbatim>\<open>pauseState\<close> returns, having
  put the state among the paused states and removed it from the population of the base;
  \<^verbatim>\<open>continueState\<close> then returns, after which the paused states are as before the pause (the
  state is absent from them), the population of the base is as before the pause, and the
  other fields are untouched.
\<close>

theorem pause_then_continue:
  assumes contract: "obeys_contract base ok population"
    and ok: "ok (baseSearcher m)"
    and fresh: "state \<notin> set (pausedStates m)"
    and scheduled: "state \<in> population (baseSearcher m)"
  shows "\<exists>m1 m2. pauseState base m state = Inr m1 \<and>
           state \<in> set (pausedStates m1) \<and>
           population (baseSearcher m1) = population (baseSearcher m) - {state} \<and>
           continueState base m1 state = Inr m2 \<and>
           pausedStates m2 = pausedStates m \<and>
           state \<notin> set (pausedStates m2) \<and>
           population (baseSearcher m2) = population (baseSearcher m) \<and>
           inCloseMerge m2 = inCloseMerge m \<and> mergeGroups m2 = mergeGroups m"
proof -
  let ?P = "population (baseSearcher m)"
  have "legal_update ?P [] [state]"
    using scheduled by (simp add: legal_update_def)
  from obeys_contract_update [OF contract ok this, of None] obtain b1 where
    b1: "update base (baseSearcher m) None [] [state] = Inr b1"
    and ok1: "ok b1" and p1: "population b1 = ?P - {state}"
    by auto
  have "legal_update (population b1) [state] []"
    using p1 by (simp add: legal_update_def)
  from obeys_contract_update [OF contract ok1 this, of None] obtain b2 where
    b2: "update base b1 None [state] [] = Inr b2"
    and p2: "population b2 = (population b1 \<union> {state}) - {}"
    by auto
  have p2': "population b2 = ?P" using p1 p2 scheduled by auto
  note calls = pause_continue_base_calls [OF fresh b1 b2]
  show ?thesis
    using calls fresh p1 p2'
    by (intro exI [of _ "m\<lparr>baseSearcher := b1, pausedStates := pausedStates m @ [state]\<rparr>"]
        exI [of _ "m\<lparr>baseSearcher := b2\<rparr>"]) simp
qed

text \<open>
  At a depth-first base holding 1, 2, 3 and no paused state, pausing and continuing state 2:
  the base holds 1, 3 in between and 1, 3, 2 afterwards, the same population in another order.
\<close>

theorem pause_then_continue_witness:
  "obeys_contract DFSSearcher distinct set \<and> distinct [1, 2, 3 :: nat] \<and>
   (2::nat) \<notin> set [] \<and> (2::nat) \<in> set [1, 2, 3] \<and>
   pauseState DFSSearcher (merging_searcher [1::ExecutionState, 2, 3] []) 2
     = Inr (merging_searcher [1::ExecutionState, 3] [2]) \<and>
   continueState DFSSearcher (merging_searcher [1::ExecutionState, 3] [2]) 2
     = Inr (merging_searcher [1::ExecutionState, 3, 2] []) \<and>
   set [1, 3, 2 :: nat] = set [1, 2, 3]"
  using pause_then_continue [OF DFSSearcher_obeys_contract,
      of "merging_searcher [1, 2, 3] []" 2]
    DFSSearcher_obeys_contract
  by (auto simp: pauseState_def continueState_def DFSSearcher_def DFSSearcher_update_def)

text \<open>
  C4.  For every MergingSearcher, whatever its base, and every state already among the paused
  states, \<^verbatim>\<open>pauseState\<close> fails its assertion; it returns no searcher.
\<close>

theorem pauseState_twice_fatal:
  "state \<in> set (pausedStates m) \<Longrightarrow>
   pauseState base m state = Inl (Assertion ''find(pausedStates, &state) == pausedStates.end()'') \<and>
   (\<forall>m'. pauseState base m state \<noteq> Inr m')"
  by (simp add: pauseState_def)

theorem pauseState_twice_fatal_witness:
  "(2::nat) \<in> set (pausedStates (merging_searcher [1::ExecutionState] [2])) \<and>
   pauseState DFSSearcher (merging_searcher [1::ExecutionState] [2]) 2
     = Inl (Assertion ''find(pausedStates, &state) == pausedStates.end()'')"
  using pauseState_twice_fatal [of 2 "merging_searcher [1] [2]" DFSSearcher]
  by simp

subsection \<open>MergingSearcher: empty\<close>

text \<open>
  C8.  \<^verbatim>\<open>MergingSearcher::empty\<close> returns what \<^verbatim>\<open>empty\<close> of the base searcher returns and
  nothing else: a MergingSearcher with paused states whose base reports empty reports empty.
\<close>

theorem MergingSearcher_empty_ignores_paused:
  "MergingSearcher_empty base m = empty base (baseSearcher m) \<and>
   (pausedStates m \<noteq> [] \<and> empty base (baseSearcher m) \<longrightarrow> MergingSearcher_empty base m)"
  by (simp add: MergingSearcher_empty_def)

theorem MergingSearcher_empty_ignores_paused_witness:
  "pausedStates (merging_searcher ([] :: ExecutionState list) [7]) \<noteq> [] \<and>
   empty DFSSearcher (baseSearcher (merging_searcher ([] :: ExecutionState list) [7])) \<and>
   MergingSearcher_empty DFSSearcher (merging_searcher ([] :: ExecutionState list) [7])"
  using MergingSearcher_empty_ignores_paused
    [of DFSSearcher "merging_searcher [] [7]"]
  by (simp add: DFSSearcher_def DFSSearcher_empty_def)

subsection \<open>The population after an update\<close>





subsection \<open>The unit test UniqueStatesTest.DFSn\<close>

text \<open>
  On the depth-first searcher alone, selecting does not remove: consecutive selections with
  no update in between return the same state, the last one, every time.
\<close>

lemma DFSSearcher_select_n_repeats:
  "select_n DFSSearcher n (xs @ [x]) = Inr (replicate n x, xs @ [x])"
  by (induction n) (simp_all add: DFSSearcher_def DFSSearcher_selectState_def)

text \<open>
  Through the wrapper, one selection from a depth-first searcher whose last state occurs
  nowhere else returns that state and leaves the states before it.
\<close>

lemma SelectNSearcher_DFSSearcher_selectState:
  "x \<notin> set xs \<Longrightarrow> selectState (SelectNSearcher DFSSearcher) (xs @ [x]) = Inr (x, xs)"
  by (simp add: SelectNSearcher_def SelectNSearcher_selectState_def DFSSearcher_def
      DFSSearcher_selectState_def DFSSearcher_update_def remove1_append)

lemma add_one_at_a_time_DFSSearcher:
  "add_one_at_a_time (SelectNSearcher DFSSearcher) b es = Inr (b @ es)"
  by (induction es arbitrary: b)
    (simp_all add: SelectNSearcher_def DFSSearcher_def DFSSearcher_update_def)

lemma select_n_DFSSearcher_rev:
  "distinct es \<Longrightarrow> select_n (SelectNSearcher DFSSearcher) (length es) es = Inr (rev es, [])"
proof (induction es rule: rev_induct)
  case Nil
  show ?case by simp
next
  case (snoc x xs)
  then have "x \<notin> set xs" and "select_n (SelectNSearcher DFSSearcher) (length xs) xs = Inr (rev xs, [])"
    by simp_all
  then show ?case
    by (simp add: SelectNSearcher_DFSSearcher_selectState)
qed

text \<open>
  C7.  A depth-first searcher behind the selecting wrapper starts empty and receives any
  number of pairwise distinct states, one in each of as many successive update calls; it then
  holds them in the order given.  As many consecutive selections, each selected state being
  removed before the next selection, return the states in the reverse of that order, leave
  the searcher empty, and are pairwise distinct.  For the five states with ids 1 to 5 the
  selections return 5, 4, 3, 2, 1.
\<close>

theorem DFSn_selects_in_reverse_order:
  assumes "distinct es"
  shows "empty (SelectNSearcher DFSSearcher) [] \<and>
         add_one_at_a_time (SelectNSearcher DFSSearcher) [] es = Inr es \<and>
         select_n (SelectNSearcher DFSSearcher) (length es) es = Inr (rev es, []) \<and>
         distinct (rev es)"
proof (intro conjI)
  show "empty (SelectNSearcher DFSSearcher) []"
    by (simp add: SelectNSearcher_def DFSSearcher_def DFSSearcher_empty_def)
  show "add_one_at_a_time (SelectNSearcher DFSSearcher) [] es = Inr es"
    by (simp add: add_one_at_a_time_DFSSearcher)
  show "select_n (SelectNSearcher DFSSearcher) (length es) es = Inr (rev es, [])"
    using assms by (rule select_n_DFSSearcher_rev)
  show "distinct (rev es)"
    using assms by simp
qed

theorem DFSn_selects_in_reverse_order_witness:
  "distinct [1, 2, 3, 4, 5 :: ExecutionState] \<and>
   empty (SelectNSearcher DFSSearcher) [] \<and>
   add_one_at_a_time (SelectNSearcher DFSSearcher) [] [1, 2, 3, 4, 5] = Inr [1, 2, 3, 4, 5] \<and>
   select_n (SelectNSearcher DFSSearcher) 5 [1, 2, 3, 4, 5] = Inr ([5, 4, 3, 2, 1], []) \<and>
   distinct [5, 4, 3, 2, 1 :: ExecutionState]"
proof -
  have d: "distinct [1, 2, 3, 4, 5 :: ExecutionState]"
    by simp
  have len: "length [1, 2, 3, 4, 5 :: ExecutionState] = 5"
    by simp
  have r: "rev [1, 2, 3, 4, 5 :: ExecutionState] = [5, 4, 3, 2, 1]"
    by simp
  from DFSn_selects_in_reverse_order [OF d] d show ?thesis
    unfolding len r by blast
qed

end
